theory Spec2Isabelle
  imports Main
begin

section \<open>Event management API: the data model\<close>

text \<open>
  The module keeps two tables, \<^verbatim>\<open>events\<close> and \<^verbatim>\<open>attendees\<close>, and serves seven
  request handlers over them. Each handler runs in a session of its own: what it changes
  reaches the tables at \<^verbatim>\<open>db.commit()\<close>, and a handler that raises before or at the
  commit leaves the tables as they were, because \<^verbatim>\<open>get_db\<close> closes the session.

  A table is the list of its rows in insertion order. Integers are Python's unbounded
  integers. A \<^verbatim>\<open>datetime\<close> is the number of microseconds between
  0001-01-01 00:00:00 and its calendar fields, an integer from 0 to \<open>datetime_max\<close>;
  the order of these numbers is the order in which the store compares the column.
\<close>

datatype EventStatus = scheduled | ongoing | completed | canceled

record event =
  event_id :: int
  name :: string
  description :: string
  start_time :: int
  end_time :: int
  location :: string
  max_attendees :: int
  status :: EventStatus

record attendee =
  attendee_id :: int
  first_name :: string
  last_name :: string
  email :: string
  phone_number :: string
  a_event_id :: int
  check_in_status :: bool

record database =
  events :: "event list"
  attendees :: "attendee list"

definition empty_db :: database where
  "empty_db = \<lparr>events = [], attendees = []\<rparr>"

text \<open>
  What a handler can raise. \<open>HTTPException\<close> is the only exception the handlers raise
  themselves; \<open>IntegrityError\<close> comes from the store at commit when the unique index on
  \<^verbatim>\<open>attendees.email\<close> is violated; \<open>OverflowError\<close>, \<open>ValueError\<close> and \<open>IndexError\<close>
  come from \<^verbatim>\<open>date + timedelta(days=1)\<close>, \<^verbatim>\<open>int(...)\<close> and \<^verbatim>\<open>row[0]\<close>.
\<close>

datatype error =
    HTTPException int string
  | IntegrityError
  | OverflowError
  | ValueError
  | IndexError

text \<open>
  A handler maps the tables to the tables after the request and the response: \<open>Inl\<close> an
  exception, \<open>Inr\<close> the value returned.
\<close>

type_synonym 'a outcome = "database \<times> (error + 'a)"

subsection \<open>Keys and queries\<close>

text \<open>
  Both primary keys are integer row ids that the store chooses on insert: 1 in an empty
  table, one more than the largest id in use otherwise.
\<close>

definition next_id :: "int list \<Rightarrow> int" where
  "next_id ids = (if ids = [] then 1 else Max (set ids) + 1)"

text \<open>\<^verbatim>\<open>db.query(Event).filter(Event.event_id == event_id).first()\<close>\<close>

definition get_event :: "database \<Rightarrow> int \<Rightarrow> event option" where
  "get_event db eid = find (\<lambda>e. event_id e = eid) (events db)"

text \<open>\<^verbatim>\<open>db.query(Attendee).filter(Attendee.attendee_id == attendee_id).first()\<close>\<close>

definition get_attendee :: "attendee list \<Rightarrow> int \<Rightarrow> attendee option" where
  "get_attendee rows aid = find (\<lambda>a. attendee_id a = aid) rows"

text \<open>\<^verbatim>\<open>event.attendees\<close>: the rows of \<^verbatim>\<open>attendees\<close> whose foreign key is the event's id.\<close>

definition event_attendees :: "database \<Rightarrow> event \<Rightarrow> attendee list" where
  "event_attendees db e = filter (\<lambda>a. a_event_id a = event_id e) (attendees db)"

section \<open>The handlers\<close>

subsection \<open>\<^verbatim>\<open>create_event\<close>\<close>

text \<open>
  The row is built without a status, so the column default \<^verbatim>\<open>EventStatus.scheduled\<close>
  is stored. Nothing is checked and nothing is raised.
\<close>

definition create_event ::
  "database \<Rightarrow> string \<Rightarrow> string \<Rightarrow> int \<Rightarrow> int \<Rightarrow> string \<Rightarrow> int \<Rightarrow> event outcome" where
  "create_event db nm descr st et loc cap =
     (let e = \<lparr>event_id = next_id (map event_id (events db)), name = nm,
                description = descr, start_time = st, end_time = et, location = loc,
                max_attendees = cap, status = scheduled\<rparr>
      in (db\<lparr>events := events db @ [e]\<rparr>, Inr e))"

subsection \<open>\<^verbatim>\<open>update_event\<close>\<close>

definition update_event :: "database \<Rightarrow> int \<Rightarrow> EventStatus \<Rightarrow> event outcome" where
  "update_event db eid s =
     (case get_event db eid of
        None \<Rightarrow> (db, Inl (HTTPException 404 ''Event not found''))
      | Some e \<Rightarrow>
          (db\<lparr>events := map (\<lambda>x. if event_id x = event_id e then x\<lparr>status := s\<rparr> else x)
                            (events db)\<rparr>,
           Inr (e\<lparr>status := s\<rparr>)))"

subsection \<open>\<^verbatim>\<open>register_attendee\<close>\<close>

text \<open>
  The two checks of the handler come first. The insert is sent at commit, where the unique
  index on \<^verbatim>\<open>email\<close> rejects an address that a row already holds; the handler does not
  catch that exception. The new row has no \<^verbatim>\<open>check_in_status\<close>, so the column default
  \<^verbatim>\<open>False\<close> is stored.
\<close>

definition register_attendee ::
  "database \<Rightarrow> int \<Rightarrow> string \<Rightarrow> string \<Rightarrow> string \<Rightarrow> string \<Rightarrow> attendee outcome" where
  "register_attendee db eid fn ln em ph =
     (case get_event db eid of
        None \<Rightarrow> (db, Inl (HTTPException 404 ''Event not found''))
      | Some e \<Rightarrow>
          if int (length (event_attendees db e)) \<ge> max_attendees e
          then (db, Inl (HTTPException 400 ''Event is full''))
          else
            let a = \<lparr>attendee_id = next_id (map attendee_id (attendees db)),
                     first_name = fn, last_name = ln, email = em, phone_number = ph,
                     a_event_id = eid, check_in_status = False\<rparr>
            in if em \<in> set (map email (attendees db))
               then (db, Inl IntegrityError)
               else (db\<lparr>attendees := attendees db @ [a]\<rparr>, Inr a))"

subsection \<open>\<^verbatim>\<open>check_in_attendee\<close>\<close>

text \<open>Setting the attribute and committing updates the row with the attendee's key.\<close>

definition set_checked_in :: "attendee list \<Rightarrow> attendee \<Rightarrow> attendee list" where
  "set_checked_in rows a =
     map (\<lambda>x. if attendee_id x = attendee_id a then x\<lparr>check_in_status := True\<rparr> else x) rows"

definition check_in_attendee :: "database \<Rightarrow> int \<Rightarrow> attendee outcome" where
  "check_in_attendee db aid =
     (case get_attendee (attendees db) aid of
        None \<Rightarrow> (db, Inl (HTTPException 404 ''Attendee not found''))
      | Some a \<Rightarrow>
          (db\<lparr>attendees := set_checked_in (attendees db) a\<rparr>,
           Inr (a\<lparr>check_in_status := True\<rparr>)))"

subsection \<open>\<^verbatim>\<open>list_events\<close>\<close>

text \<open>
  \<^verbatim>\<open>datetime.max\<close> is 9999-12-31 23:59:59.999999, and \<^verbatim>\<open>date + timedelta(days=1)\<close>
  raises \<^verbatim>\<open>OverflowError\<close> beyond it.
\<close>

definition datetime_max :: int where
  "datetime_max = 315537897599999999"

definition one_day :: int where
  "one_day = 86400000000"

definition datetime_add :: "int \<Rightarrow> int \<Rightarrow> error + int" where
  "datetime_add d delta =
     (if d + delta < 0 \<or> datetime_max < d + delta then Inl OverflowError else Inr (d + delta))"

text \<open>
  The three tests are Python truth tests. A member of \<^verbatim>\<open>EventStatus\<close> and a
  \<^verbatim>\<open>datetime\<close> are always true, so those filters apply whenever the argument is given;
  a string is true when it is not empty, so the empty location filters nothing.
\<close>

definition list_events ::
  "database \<Rightarrow> EventStatus option \<Rightarrow> string option \<Rightarrow> int option \<Rightarrow> error + event list" where
  "list_events db st loc date =
     (let q0 = events db;
          q1 = (case st of None \<Rightarrow> q0 | Some s \<Rightarrow> filter (\<lambda>e. status e = s) q0);
          q2 = (case loc of None \<Rightarrow> q1
                | Some l \<Rightarrow> if l \<noteq> [] then filter (\<lambda>e. location e = l) q1 else q1)
      in case date of
           None \<Rightarrow> Inr q2
         | Some d \<Rightarrow>
             (case datetime_add d one_day of
                Inl err \<Rightarrow> Inl err
              | Inr d' \<Rightarrow> Inr (filter (\<lambda>e. d \<le> start_time e \<and> end_time e \<le> d') q2)))"

subsection \<open>\<^verbatim>\<open>list_attendees\<close>\<close>


subsection \<open>\<^verbatim>\<open>bulk_check_in\<close>\<close>

text \<open>
  The input is the sequence of rows that \<^verbatim>\<open>csv.reader\<close> yields from the uploaded file,
  each a list of fields. Python's built-in \<^verbatim>\<open>int\<close> on a string is the parameter
  \<open>to_int\<close>, with \<open>None\<close> where it raises \<^verbatim>\<open>ValueError\<close>. \<^verbatim>\<open>row[0]\<close> raises
  \<^verbatim>\<open>IndexError\<close> on a row without fields, which is what a blank line gives.

  The loop works on the session's rows; the single commit after it stores them. When a row
  raises, the commit is not reached and the tables stay as they were.
\<close>

fun bulk_rows ::
  "(string \<Rightarrow> int option) \<Rightarrow> attendee list \<Rightarrow> string list list \<Rightarrow> error + attendee list" where
  "bulk_rows to_int rows [] = Inr rows"
| "bulk_rows to_int rows (r # rs) =
     (case r of
        [] \<Rightarrow> Inl IndexError
      | field # _ \<Rightarrow>
          (case to_int field of
             None \<Rightarrow> Inl ValueError
           | Some aid \<Rightarrow>
               (case get_attendee rows aid of
                  None \<Rightarrow> bulk_rows to_int rows rs
                | Some a \<Rightarrow> bulk_rows to_int (set_checked_in rows a) rs)))"

definition bulk_check_in ::
  "(string \<Rightarrow> int option) \<Rightarrow> database \<Rightarrow> string list list \<Rightarrow> ((string \<times> string) list) outcome" where
  "bulk_check_in to_int db file_rows =
     (case bulk_rows to_int (attendees db) file_rows of
        Inl err \<Rightarrow> (db, Inl err)
      | Inr rows \<Rightarrow>
          (db\<lparr>attendees := rows\<rparr>, Inr [(''message'', ''Bulk check-in completed'')]))"

section \<open>Sequences of requests\<close>

text \<open>
  The requests that change the tables, and the tables after serving a list of them one
  after the other. A request that raises leaves the tables as its handler returns them.
\<close>

datatype request =
    CreateEvent string string int int string int
  | UpdateEvent int EventStatus
  | RegisterAttendee int string string string string
  | CheckIn int
  | BulkCheckIn "string list list"

fun step :: "(string \<Rightarrow> int option) \<Rightarrow> database \<Rightarrow> request \<Rightarrow> database" where
  "step to_int db (CreateEvent nm descr st et loc cap) = fst (create_event db nm descr st et loc cap)"
| "step to_int db (UpdateEvent eid s) = fst (update_event db eid s)"
| "step to_int db (RegisterAttendee eid fn ln em ph) = fst (register_attendee db eid fn ln em ph)"
| "step to_int db (CheckIn aid) = fst (check_in_attendee db aid)"
| "step to_int db (BulkCheckIn file_rows) = fst (bulk_check_in to_int db file_rows)"

definition run :: "(string \<Rightarrow> int option) \<Rightarrow> database \<Rightarrow> request list \<Rightarrow> database" where
  "run to_int db reqs = foldl (step to_int) db reqs"

section \<open>Notions used in the statements\<close>

text \<open>
  The properties that every state reached from the empty tables has: keys are unique,
  every attendee refers to an event, and no event with room for \<open>n \<ge> 0\<close> attendees has
  more than \<open>n\<close>.
\<close>

definition consistent :: "database \<Rightarrow> bool" where
  "consistent db =
     (distinct (map event_id (events db))
      \<and> distinct (map attendee_id (attendees db))
      \<and> set (map a_event_id (attendees db)) \<subseteq> set (map event_id (events db))
      \<and> (\<forall>e \<in> set (events db). int (length (event_attendees db e)) \<le> max 0 (max_attendees e)))"


text \<open>
  The filters of \<^verbatim>\<open>list_events\<close> as a predicate on one event, all of them at once: the
  status given, the location given unless it is the empty string, and the day that
  starts at the date given.
\<close>

definition matches_filters ::
  "EventStatus option \<Rightarrow> string option \<Rightarrow> int option \<Rightarrow> event \<Rightarrow> bool" where
  "matches_filters st loc date e =
     ((case st of None \<Rightarrow> True | Some s \<Rightarrow> status e = s)
      \<and> (case loc of None \<Rightarrow> True | Some l \<Rightarrow> l = [] \<or> location e = l)
      \<and> (case date of None \<Rightarrow> True | Some d \<Rightarrow> d \<le> start_time e \<and> end_time e \<le> d + one_day))"



section \<open>Example data\<close>

text \<open>
  A reader of unsigned ASCII decimal numerals, on which it agrees with \<^verbatim>\<open>int\<close>; it
  stands for \<open>to_int\<close> in the examples.
\<close>

definition digit_value :: "char \<Rightarrow> int option" where
  "digit_value c =
     (let n = (of_char c :: nat) in if 48 \<le> n \<and> n \<le> 57 then Some (int n - 48) else None)"

fun decimal_from :: "int \<Rightarrow> string \<Rightarrow> int option" where
  "decimal_from n [] = Some n"
| "decimal_from n (c # cs) =
     (case digit_value c of None \<Rightarrow> None | Some d \<Rightarrow> decimal_from (10 * n + d) cs)"

definition decimal :: "string \<Rightarrow> int option" where
  "decimal s = (if s = [] then None else decimal_from 0 s)"

definition demo_event :: event where
  "demo_event = \<lparr>event_id = 1, name = ''Gala'', description = ''dinner'', start_time = 100,
                  end_time = 500, location = ''Hall'', max_attendees = 2, status = scheduled\<rparr>"

definition demo_attendee :: attendee where
  "demo_attendee = \<lparr>attendee_id = 1, first_name = ''Ada'', last_name = ''King'',
                     email = ''ada@example.org'', phone_number = ''555'', a_event_id = 1,
                     check_in_status = False\<rparr>"

definition demo_db :: database where
  "demo_db = \<lparr>events = [demo_event], attendees = [demo_attendee]\<rparr>"

text \<open>
  The scenario of an event for one attendee: the second registration finds the event
  full, and the unknown id 4 of the upload is skipped.
\<close>

definition demo_requests :: "request list" where
  "demo_requests =
     [CreateEvent ''Gala'' ''dinner'' 100 500 ''Hall'' 1,
      RegisterAttendee 1 ''Ada'' ''King'' ''ada@example.org'' ''555'',
      RegisterAttendee 1 ''Bob'' ''Ray'' ''bob@example.org'' ''556'',
      CheckIn 1,
      BulkCheckIn [[''1''], [''4'']]]"

definition small_event :: event where
  "small_event = \<lparr>event_id = 1, name = ''Gala'', description = ''dinner'', start_time = 100,
                   end_time = 500, location = ''Hall'', max_attendees = 1, status = scheduled\<rparr>"

definition ada_checked_in :: attendee where
  "ada_checked_in = \<lparr>attendee_id = 1, first_name = ''Ada'', last_name = ''King'',
                      email = ''ada@example.org'', phone_number = ''555'', a_event_id = 1,
                      check_in_status = True\<rparr>"

section \<open>Lookups and keys\<close>

lemma next_id_fresh: "next_id ids \<notin> set ids"
proof (cases "ids = []")
  case True
  then show ?thesis by simp
next
  case False
  show ?thesis
  proof
    assume "next_id ids \<in> set ids"
    then have "next_id ids \<le> Max (set ids)" by simp
    with False show False by (simp add: next_id_def)
  qed
qed

lemma get_event_SomeD: "get_event db eid = Some e \<Longrightarrow> e \<in> set (events db) \<and> event_id e = eid"
  by (auto simp: get_event_def find_Some_iff)


lemma get_attendee_SomeD:
  "get_attendee rows aid = Some a \<Longrightarrow> a \<in> set rows \<and> attendee_id a = aid"
  by (auto simp: get_attendee_def find_Some_iff)



lemma get_attendee_set_checked_in:
  "get_attendee (set_checked_in rows a) aid =
     (if aid = attendee_id a
      then map_option (\<lambda>x. x\<lparr>check_in_status := True\<rparr>) (get_attendee rows aid)
      else get_attendee rows aid)"
  unfolding get_attendee_def set_checked_in_def by (induction rows) auto

lemma set_checked_in_twice:
  "attendee_id b = attendee_id a \<Longrightarrow>
   set_checked_in (set_checked_in rows a) b = set_checked_in rows a"
  unfolding set_checked_in_def by (induction rows) auto

lemma set_checked_in_keys:
  "map a_event_id (set_checked_in rows a) = map a_event_id rows"
  "map attendee_id (set_checked_in rows a) = map attendee_id rows"
  by (induction rows) (auto simp: set_checked_in_def)

lemma count_by_keys:
  "length (filter (\<lambda>a. a_event_id a = k) rows)
     = length (filter (\<lambda>i. i = k) (map a_event_id rows))"
  by (induction rows) auto

section \<open>Creating events and setting their status\<close>





section \<open>Checking in\<close>

text \<open>
  Claim C3. Checking in is idempotent. For an attendee id that exists, the first call
  returns the attendee with \<open>check_in_status\<close> true and stores it so; a second call on
  the tables after the first raises nothing, returns the same attendee and leaves the
  tables as the first call left them.
\<close>

theorem check_in_idempotent:
  assumes "get_attendee (attendees db) aid = Some a"
  shows "\<exists>db1 a1. check_in_attendee db aid = (db1, Inr a1) \<and> check_in_status a1
           \<and> get_attendee (attendees db1) aid = Some a1
           \<and> check_in_attendee db1 aid = (db1, Inr a1)"
proof -
  let ?a1 = "a\<lparr>check_in_status := True\<rparr>"
  let ?db1 = "db\<lparr>attendees := set_checked_in (attendees db) a\<rparr>"
  from assms have id: "attendee_id a = aid" by (simp add: get_attendee_SomeD)
  have first: "check_in_attendee db aid = (?db1, Inr ?a1)"
    using assms by (simp add: check_in_attendee_def)
  have found: "get_attendee (attendees ?db1) aid = Some ?a1"
    using assms id by (simp add: get_attendee_set_checked_in)
  have "set_checked_in (attendees ?db1) ?a1 = attendees ?db1"
    by (simp add: set_checked_in_twice)
  then have second: "check_in_attendee ?db1 aid = (?db1, Inr ?a1)"
    using found by (simp add: check_in_attendee_def)
  from first found second show ?thesis by simp
qed

theorem check_in_idempotent_witness:
  "get_attendee (attendees demo_db) 1 = Some demo_attendee
   \<and> (\<exists>db1 a1. check_in_attendee demo_db 1 = (db1, Inr a1) \<and> check_in_status a1
           \<and> get_attendee (attendees db1) 1 = Some a1
           \<and> check_in_attendee db1 1 = (db1, Inr a1))"
proof -
  have h: "get_attendee (attendees demo_db) 1 = Some demo_attendee"
    by (simp add: get_attendee_def demo_db_def demo_attendee_def)
  from h check_in_idempotent [OF h] show ?thesis by blast
qed

section \<open>Registering attendees\<close>

text \<open>
  Claim C1, amended. Let the event with the id given have room for \<open>max_attendees e\<close>
  attendees. While it has fewer attendees than that and no attendee holds the email
  address, \<^verbatim>\<open>register_attendee\<close> appends and returns a new attendee of the event with
  \<open>check_in_status\<close> false, and the event has one attendee more. Whenever it has at least
  that many attendees, the call raises the 400 exception and changes nothing; so a
  registration that follows \<open>max_attendees e\<close> successful ones is refused.
\<close>

theorem register_attendee_capacity:
  assumes "get_event db eid = Some e"
  shows "(int (length (event_attendees db e)) < max_attendees e
            \<and> em \<notin> set (map email (attendees db)) \<longrightarrow>
          (\<exists>a. register_attendee db eid fn ln em ph = (db\<lparr>attendees := attendees db @ [a]\<rparr>, Inr a)
               \<and> check_in_status a = False \<and> a_event_id a = eid \<and> email a = em
               \<and> first_name a = fn \<and> last_name a = ln \<and> phone_number a = ph
               \<and> length (event_attendees (db\<lparr>attendees := attendees db @ [a]\<rparr>) e)
                   = length (event_attendees db e) + 1))
       \<and> (max_attendees e \<le> int (length (event_attendees db e)) \<longrightarrow>
          register_attendee db eid fn ln em ph = (db, Inl (HTTPException 400 ''Event is full'')))"
proof -
  from assms have "event_id e = eid" by (simp add: get_event_SomeD)
  with assms show ?thesis
    by (simp add: register_attendee_def Let_def event_attendees_def)
qed

text \<open>
  The event of \<open>demo_db\<close> has room for two attendees and has one: the second registration
  succeeds and the third is refused.
\<close>

theorem register_attendee_capacity_witness:
  "get_event demo_db 1 = Some demo_event
   \<and> int (length (event_attendees demo_db demo_event)) < max_attendees demo_event
   \<and> ''bob@example.org'' \<notin> set (map email (attendees demo_db))
   \<and> check_in_status
        (projr (snd (register_attendee demo_db 1 ''Bob'' ''Ray'' ''bob@example.org'' ''556''))) = False
   \<and> length (attendees
        (fst (register_attendee demo_db 1 ''Bob'' ''Ray'' ''bob@example.org'' ''556''))) = 2
   \<and> register_attendee
        (fst (register_attendee demo_db 1 ''Bob'' ''Ray'' ''bob@example.org'' ''556''))
        1 ''Cy'' ''Lee'' ''cy@example.org'' ''557''
       = (fst (register_attendee demo_db 1 ''Bob'' ''Ray'' ''bob@example.org'' ''556''),
          Inl (HTTPException 400 ''Event is full''))"
proof -
  have h: "get_event demo_db 1 = Some demo_event"
    by (simp add: get_event_def demo_db_def demo_event_def)
  have c: "int (length (event_attendees demo_db demo_event)) < max_attendees demo_event"
    by (simp add: event_attendees_def demo_db_def demo_event_def demo_attendee_def)
  have f: "''bob@example.org'' \<notin> set (map email (attendees demo_db))"
    by (simp add: demo_db_def demo_attendee_def)
  let ?db1 = "fst (register_attendee demo_db 1 ''Bob'' ''Ray'' ''bob@example.org'' ''556'')"
  have h1: "get_event ?db1 1 = Some demo_event"
    by (simp add: register_attendee_def get_event_def demo_db_def demo_event_def demo_attendee_def
        event_attendees_def Let_def next_id_def)
  have c1: "max_attendees demo_event \<le> int (length (event_attendees ?db1 demo_event))"
    by (simp add: register_attendee_def get_event_def demo_db_def demo_event_def demo_attendee_def
        event_attendees_def Let_def next_id_def)
  from register_attendee_capacity [OF h, of "''bob@example.org''" "''Bob''" "''Ray''" "''556''"] c f
  obtain a where a: "register_attendee demo_db 1 ''Bob'' ''Ray'' ''bob@example.org'' ''556''
       = (demo_db\<lparr>attendees := attendees demo_db @ [a]\<rparr>, Inr a)" "check_in_status a = False"
    by blast
  from register_attendee_capacity [OF h1, of "''cy@example.org''" "''Cy''" "''Lee''" "''557''"] c1
  have full: "register_attendee ?db1 1 ''Cy'' ''Lee'' ''cy@example.org'' ''557''
       = (?db1, Inl (HTTPException 400 ''Event is full''))" by blast
  from h c f a full show ?thesis by (simp add: demo_db_def)
qed

text \<open>
  As claim C1 is written it fails: the event of \<open>demo_db\<close> has one attendee and room for
  two, and registering the address of that attendee again does not succeed.
\<close>

theorem register_attendee_capacity_counterexample:
  "get_event demo_db 1 = Some demo_event
   \<and> int (length (event_attendees demo_db demo_event)) < max_attendees demo_event
   \<and> register_attendee demo_db 1 ''Ann'' ''Roe'' ''ada@example.org'' ''558''
       = (demo_db, Inl IntegrityError)"
  by (simp add: register_attendee_def get_event_def demo_db_def demo_event_def demo_attendee_def
        event_attendees_def Let_def next_id_def)











section \<open>Listing events\<close>

text \<open>
  Claim C6, amended. When the date, if one is given, is a \<^verbatim>\<open>datetime\<close> at least a day
  before \<^verbatim>\<open>datetime.max\<close>, \<^verbatim>\<open>list_events\<close> returns exactly the events that match all
  the filters given, in table order: the status given, the location given unless it is the
  empty string, which filters nothing, and a start not before the date with an end not
  after the date plus 24 hours.
\<close>

theorem list_events_filters:
  assumes "\<And>d. date = Some d \<Longrightarrow> 0 \<le> d \<and> d + one_day \<le> datetime_max"
  shows "list_events db st loc date = Inr (filter (matches_filters st loc date) (events db))"
proof (cases date)
  case None
  then show ?thesis
    by (auto simp: list_events_def matches_filters_def Let_def split: option.splits
             intro!: filter_cong)
next
  case (Some d)
  with assms have "0 \<le> d" "d + one_day \<le> datetime_max" by auto
  moreover have "0 \<le> one_day" by (simp add: one_day_def)
  ultimately have "datetime_add d one_day = Inr (d + one_day)"
    by (simp add: datetime_add_def)
  with Some show ?thesis
    by (auto simp: list_events_def matches_filters_def Let_def split: option.splits
             intro!: filter_cong)
qed

text \<open>
  The event of \<open>demo_db\<close> runs from 100 to 500: it is in the day that starts at 50, and
  not in the day that starts at 200, although it ends within that day.
\<close>

theorem list_events_filters_witness:
  "(0::int) \<le> 50 \<and> 50 + one_day \<le> datetime_max
   \<and> list_events demo_db (Some scheduled) (Some ''Hall'') (Some 50) = Inr [demo_event]
   \<and> list_events demo_db (Some scheduled) (Some ''Hall'') (Some 200) = Inr []
   \<and> list_events demo_db (Some ongoing) None None = Inr []"
proof -
  have h: "\<And>d. Some (50::int) = Some d \<Longrightarrow> 0 \<le> d \<and> d + one_day \<le> datetime_max"
    and h2: "\<And>d. Some (200::int) = Some d \<Longrightarrow> 0 \<le> d \<and> d + one_day \<le> datetime_max"
    and h3: "\<And>d. (None :: int option) = Some d \<Longrightarrow> 0 \<le> d \<and> d + one_day \<le> datetime_max"
    by (simp_all add: one_day_def datetime_max_def)
  from list_events_filters [of "Some 50" demo_db "Some scheduled" "Some ''Hall''", OF h]
       list_events_filters [of "Some 200" demo_db "Some scheduled" "Some ''Hall''", OF h2]
       list_events_filters [of None demo_db "Some ongoing" None, OF h3]
  show ?thesis
    by (simp add: matches_filters_def demo_db_def demo_event_def one_day_def datetime_max_def)
qed

text \<open>
  As claim C6 is written it fails: with the empty string as the location filter, the
  event in the hall is returned.
\<close>

theorem list_events_filters_counterexample:
  "list_events demo_db None (Some []) None = Inr [demo_event] \<and> location demo_event \<noteq> []"
  by (simp add: list_events_def demo_db_def demo_event_def)

section \<open>Bulk check-in\<close>











section \<open>Invariants of the tables\<close>

lemma bulk_rows_keys:
  "bulk_rows to_int rows file_rows = Inr rows' \<Longrightarrow>
   map a_event_id rows' = map a_event_id rows \<and> map attendee_id rows' = map attendee_id rows"
proof (induction file_rows arbitrary: rows)
  case Nil
  then show ?case by simp
next
  case (Cons r rs)
  then show ?case
    by (fastforce simp: set_checked_in_keys split: list.splits option.splits)
qed

text \<open>A request that keeps the keys, the capacities and the foreign keys keeps consistency.\<close>

lemma consistent_same_keys:
  assumes "consistent db"
    and "map event_id (events db') = map event_id (events db)"
    and "map max_attendees (events db') = map max_attendees (events db)"
    and "map a_event_id (attendees db') = map a_event_id (attendees db)"
    and "map attendee_id (attendees db') = map attendee_id (attendees db)"
  shows "consistent db'"
proof -
  have cap: "int (length (event_attendees db' e')) \<le> max 0 (max_attendees e')"
    if "e' \<in> set (events db')" for e'
  proof -
    from that obtain i where i: "i < length (events db')" "events db' ! i = e'"
      by (auto simp: in_set_conv_nth)
    have len: "length (events db') = length (events db)"
      using assms(2) by (metis length_map)
    let ?e = "events db ! i"
    from i len have mem: "?e \<in> set (events db)" by simp
    have "event_id e' = event_id ?e"
      using i len assms(2) by (metis nth_map)
    moreover have "max_attendees e' = max_attendees ?e"
      using i len assms(3) by (metis nth_map)
    moreover have "int (length (event_attendees db ?e)) \<le> max 0 (max_attendees ?e)"
      using assms(1) mem by (simp add: consistent_def)
    ultimately show ?thesis
      using assms(4) by (simp add: event_attendees_def count_by_keys)
  qed
  from assms show ?thesis
    unfolding consistent_def using cap by metis
qed

lemma consistent_empty: "consistent empty_db"
  by (simp add: consistent_def empty_db_def)

lemma consistent_create_event:
  assumes "consistent db"
  shows "consistent (fst (create_event db nm descr st et loc cap))"
proof -
  let ?k = "next_id (map event_id (events db))"
  have fresh: "?k \<notin> set (map event_id (events db))" by (rule next_id_fresh)
  with assms have "?k \<notin> set (map a_event_id (attendees db))"
    by (auto simp: consistent_def)
  then have "filter (\<lambda>a. a_event_id a = ?k) (attendees db) = []"
    unfolding filter_empty_conv by (metis image_eqI set_map)
  with assms fresh show ?thesis
    by (auto simp: consistent_def create_event_def Let_def event_attendees_def)
qed

lemma consistent_update_event:
  assumes "consistent db"
  shows "consistent (fst (update_event db eid s))"
proof (cases "get_event db eid")
  case None
  with assms show ?thesis by (simp add: update_event_def)
next
  case (Some e)
  show ?thesis
    by (rule consistent_same_keys [OF assms])
       (simp_all add: update_event_def Some comp_def cong: map_cong)
qed

lemma consistent_register_attendee:
  assumes "consistent db"
  shows "consistent (fst (register_attendee db eid fn ln em ph))"
proof (cases "get_event db eid")
  case None
  with assms show ?thesis by (simp add: register_attendee_def)
next
  case (Some e)
  then have e: "e \<in> set (events db)" "event_id e = eid" by (simp_all add: get_event_SomeD)
  show ?thesis
  proof (cases "max_attendees e \<le> int (length (event_attendees db e))
                \<or> em \<in> set (map email (attendees db))")
    case True
    with assms Some show ?thesis by (auto simp: register_attendee_def Let_def)
  next
    case False
    let ?a = "\<lparr>attendee_id = next_id (map attendee_id (attendees db)),
                     first_name = fn, last_name = ln, email = em, phone_number = ph,
                     a_event_id = eid, check_in_status = False\<rparr>"
    let ?db' = "db\<lparr>attendees := attendees db @ [?a]\<rparr>"
    from False Some have res: "fst (register_attendee db eid fn ln em ph) = ?db'"
      by (simp add: register_attendee_def Let_def)
    have fresh: "next_id (map attendee_id (attendees db)) \<notin> set (map attendee_id (attendees db))"
      by (rule next_id_fresh)
    have cap: "int (length (event_attendees ?db' e')) \<le> max 0 (max_attendees e')"
      if "e' \<in> set (events db)" for e'
    proof (cases "event_id e' = eid")
      case True
      with that e assms have "e' = e"
        by (auto simp: consistent_def distinct_map inj_on_def)
      with False e show ?thesis by (simp add: event_attendees_def)
    next
      case False
      with assms that show ?thesis by (simp add: consistent_def event_attendees_def)
    qed
    from assms fresh e cap have "consistent ?db'"
      by (auto simp: consistent_def)
    with res show ?thesis by simp
  qed
qed

lemma consistent_check_in_attendee:
  assumes "consistent db"
  shows "consistent (fst (check_in_attendee db aid))"
proof (cases "get_attendee (attendees db) aid")
  case None
  with assms show ?thesis by (simp add: check_in_attendee_def)
next
  case (Some a)
  show ?thesis
    by (rule consistent_same_keys [OF assms])
       (simp_all add: check_in_attendee_def Some set_checked_in_keys)
qed

lemma consistent_bulk_check_in:
  assumes "consistent db"
  shows "consistent (fst (bulk_check_in to_int db file_rows))"
proof (cases "bulk_rows to_int (attendees db) file_rows")
  case (Inl err)
  with assms show ?thesis by (simp add: bulk_check_in_def)
next
  case (Inr rows')
  show ?thesis
    by (rule consistent_same_keys [OF assms])
       (simp_all add: bulk_check_in_def Inr bulk_rows_keys [OF Inr])
qed

lemma consistent_step: "consistent db \<Longrightarrow> consistent (step to_int db req)"
  by (cases req)
     (simp_all add: consistent_create_event consistent_update_event
        consistent_register_attendee consistent_check_in_attendee consistent_bulk_check_in)

lemma consistent_run: "consistent db \<Longrightarrow> consistent (run to_int db reqs)"
  unfolding run_def by (induction reqs arbitrary: db) (simp_all add: consistent_step)

lemma run_demo_requests:
  "run decimal empty_db demo_requests = \<lparr>events = [small_event], attendees = [ada_checked_in]\<rparr>"
  by (simp add: run_def demo_requests_def empty_db_def create_event_def register_attendee_def
      check_in_attendee_def bulk_check_in_def get_event_def get_attendee_def event_attendees_def
      set_checked_in_def next_id_def Let_def decimal_def digit_value_def small_event_def
      ada_checked_in_def)

text \<open>
  Claim C4, amended. In every state that a sequence of \<^verbatim>\<open>create_event\<close>,
  \<^verbatim>\<open>update_event\<close>, \<^verbatim>\<open>register_attendee\<close>, \<^verbatim>\<open>check_in_attendee\<close> and
  \<^verbatim>\<open>bulk_check_in\<close> requests reaches from the empty tables, the number of attendees of
  each event is at most its \<open>max_attendees\<close> or zero, whichever is larger: it never
  exceeds \<open>max_attendees\<close> for an event created with a capacity that is not negative.
\<close>

theorem capacity_invariant:
  assumes "e \<in> set (events (run to_int empty_db reqs))"
  shows "int (length (event_attendees (run to_int empty_db reqs) e)) \<le> max 0 (max_attendees e)"
  using consistent_run [OF consistent_empty, of to_int reqs] assms
  by (simp add: consistent_def)

text \<open>After the scenario the event for one attendee has one attendee.\<close>

theorem capacity_invariant_witness:
  "small_event \<in> set (events (run decimal empty_db demo_requests))
   \<and> int (length (event_attendees (run decimal empty_db demo_requests) small_event)) = 1
   \<and> int (length (event_attendees (run decimal empty_db demo_requests) small_event))
        \<le> max 0 (max_attendees small_event)"
proof -
  have h: "small_event \<in> set (events (run decimal empty_db demo_requests))"
    by (simp add: run_demo_requests)
  have n: "int (length (event_attendees (run decimal empty_db demo_requests) small_event)) = 1"
    by (simp add: run_demo_requests event_attendees_def small_event_def ada_checked_in_def)
  from h n capacity_invariant [OF h] show ?thesis by simp
qed

text \<open>
  As claim C4 is written it fails: an event created with capacity \<open>-1\<close> has no attendees,
  which is more than its \<open>max_attendees\<close>.
\<close>

theorem capacity_invariant_counterexample:
  "events (run decimal empty_db [CreateEvent ''Gala'' ''dinner'' 100 500 ''Hall'' (- 1)])
     = [small_event\<lparr>max_attendees := - 1\<rparr>]
   \<and> max_attendees (small_event\<lparr>max_attendees := - 1\<rparr>)
       < int (length (event_attendees
           (run decimal empty_db [CreateEvent ''Gala'' ''dinner'' 100 500 ''Hall'' (- 1)])
           (small_event\<lparr>max_attendees := - 1\<rparr>)))"
  by (simp add: run_def empty_db_def create_event_def next_id_def Let_def small_event_def
      event_attendees_def)

section \<open>Listing attendees\<close>



end
